theory Spec2Isabelle
  imports Main "HOL-Library.Sublist" "HOL-Library.Word"
begin

section \<open>Strings of the host language\<close>

text \<open>
  A JavaScript string is a sequence of 16-bit code units, and the string methods and the
  regular expression used here (it has no flag) work on code units. \<open>js\<close> turns a
  literal of the theory into such a string. \<open>String.prototype.trim\<close> removes the
  white space and the line terminators of ECMAScript: TAB, VT, FF, SPACE, NBSP, the
  other space separators of Unicode and the byte order mark, and LF, CR, U+2028, U+2029.
  The regular expression atom \<open>.\<close> refuses the four line terminators.
\<close>

type_synonym code_unit = "16 word"
type_synonym jstring = "code_unit list"

definition unit_of :: "char \<Rightarrow> code_unit" where
  "unit_of c = of_nat (of_char c)"

definition js :: "string \<Rightarrow> jstring" where
  "js s = map unit_of s"

definition LF :: code_unit where "LF = 0x0A"
definition CR :: code_unit where "CR = 0x0D"
definition LS :: code_unit where "LS = 0x2028"
definition PS :: code_unit where "PS = 0x2029"
definition dquote :: code_unit where "dquote = 0x22"
definition squote :: code_unit where "squote = 0x27"
definition hash_sign :: code_unit where "hash_sign = 0x23"
definition eq_sign :: code_unit where "eq_sign = 0x3D"

definition is_line_terminator :: "code_unit \<Rightarrow> bool" where
  "is_line_terminator c \<longleftrightarrow> c = LF \<or> c = CR \<or> c = LS \<or> c = PS"

definition is_whitespace :: "code_unit \<Rightarrow> bool" where
  "is_whitespace c \<longleftrightarrow>
     is_line_terminator c \<or>
     c \<in> {0x09, 0x0B, 0x0C, 0x20, 0xA0, 0x1680,
          0x2000, 0x2001, 0x2002, 0x2003, 0x2004, 0x2005, 0x2006, 0x2007, 0x2008, 0x2009,
          0x200A, 0x202F, 0x205F, 0x3000, 0xFEFF}"

text \<open>\<open>s.trim()\<close>\<close>

definition trim :: "jstring \<Rightarrow> jstring" where
  "trim s = rev (dropWhile is_whitespace (rev (dropWhile is_whitespace s)))"

text \<open>\<open>s.split('\n')\<close>: never empty, the pieces hold no LF.\<close>

fun split_lines :: "jstring \<Rightarrow> jstring list" where
  "split_lines [] = [[]]"
| "split_lines (c # cs) =
     (if c = LF then [] # split_lines cs
      else (case split_lines cs of [] \<Rightarrow> [[c]] | l # ls \<Rightarrow> (c # l) # ls))"

text \<open>\<open>s.startsWith(c)\<close> and \<open>s.endsWith(c)\<close> for a one-character \<open>c\<close>.\<close>

definition startsWith :: "jstring \<Rightarrow> code_unit \<Rightarrow> bool" where
  "startsWith s c \<longleftrightarrow> (case s of [] \<Rightarrow> False | x # _ \<Rightarrow> x = c)"

definition endsWith :: "jstring \<Rightarrow> code_unit \<Rightarrow> bool" where
  "endsWith s c \<longleftrightarrow> (case rev s of [] \<Rightarrow> False | x # _ \<Rightarrow> x = c)"

text \<open>\<open>s.slice(1, -1)\<close>: from index 1 up to the last character, empty when
  \<open>s\<close> has fewer than two characters.\<close>

definition slice_1_m1 :: "jstring \<Rightarrow> jstring" where
  "slice_1_m1 s = take (length s - 2) (drop 1 s)"

text \<open>
  \<open>trimmed.match(/^([^=]+)=(.*)$/)\<close>: group 1 is the longest run of characters other
  than \<open>=\<close> at the start, which must not be empty and must be followed by \<open>=\<close>;
  group 2 is the rest, which must reach the end of the string without meeting a line
  terminator (no flag is set, so \<open>.\<close> refuses them and \<open>$\<close> is the end of input).
  A shorter group 1 is followed by a character other than \<open>=\<close>, so backtracking
  finds nothing else.
\<close>

definition match_assignment :: "jstring \<Rightarrow> (jstring \<times> jstring) option" where
  "match_assignment s =
     (let g1 = takeWhile (\<lambda>c. c \<noteq> eq_sign) s;
          rest = dropWhile (\<lambda>c. c \<noteq> eq_sign) s
      in case rest of
           [] \<Rightarrow> None
         | _ # g2 \<Rightarrow>
             if g1 = [] \<or> list_ex is_line_terminator g2 then None
             else Some (g1, g2))"

section \<open>Objects as maps of their own properties\<close>

type_synonym env = "jstring \<rightharpoonup> jstring"

text \<open>
  \<open>obj[key] = value\<close> on an ordinary object: the key \<open>__proto__\<close> is an accessor
  inherited from \<open>Object.prototype\<close> whose setter ignores a string, so the assignment
  creates no own property unless the object already owns one of that name.
\<close>

definition set_prop :: "env \<Rightarrow> jstring \<Rightarrow> jstring \<Rightarrow> env" where
  "set_prop obj key v =
     (if key = js ''__proto__'' \<and> obj key = None then obj else obj(key \<mapsto> v))"

text \<open>\<open>Object.assign(target, source)\<close> assigns every own property of the source
  in this way; an assignment to one key leaves the others alone.\<close>

definition object_assign :: "env \<Rightarrow> env \<Rightarrow> env" where
  "object_assign target source =
     (\<lambda>k. case source k of None \<Rightarrow> target k | Some v \<Rightarrow> set_prop target k v k)"

section \<open>The file parser\<close>

text \<open>The body of the \<open>forEach\<close> callback of \<open>parseEnvFile\<close>: the entry a line
  yields, if any.\<close>

definition parse_line :: "jstring \<Rightarrow> (jstring \<times> jstring) option" where
  "parse_line line =
     (let trimmed = trim line in
      if trimmed = [] \<or> startsWith trimmed (hash_sign) then None
      else (case match_assignment trimmed of
              None \<Rightarrow> None
            | Some (g1, g2) \<Rightarrow>
                let key = trim g1;
                    v = trim g2;
                    v' = (if (startsWith v dquote \<and> endsWith v dquote) \<or>
                             (startsWith v squote \<and> endsWith v squote)
                          then slice_1_m1 v else v)
                in Some (key, v')))"

text \<open>The \<open>forEach\<close> loop over the lines, \<open>env[key] = value\<close> on each entry.\<close>

fun parse_lines :: "jstring list \<Rightarrow> env \<Rightarrow> env" where
  "parse_lines [] env = env"
| "parse_lines (line # rest) env =
     (case parse_line line of
        None \<Rightarrow> parse_lines rest env
      | Some (key, v) \<Rightarrow> parse_lines rest (set_prop env key v))"

definition parse_content :: "jstring \<Rightarrow> env" where
  "parse_content content = parse_lines (split_lines content) Map.empty"

section \<open>The world outside: process environment, working directory, files\<close>

text \<open>
  A path names nothing, a regular file with its text, or something that exists and cannot
  be read as text (a directory, a file without read permission): \<open>fs.existsSync\<close>
  answers true for both kinds of node, \<open>fs.readFileSync\<close> throws on all but the first.
  The files are found under the path strings that the code hands to these two functions.
\<close>

datatype fs_node = RegularFile jstring | Unreadable

text \<open>
  \<open>path_join\<close> is \<open>path.join\<close> of the platform (POSIX or Windows) applied to two
  strings: it belongs to the Node library, joins with the platform's separator and
  normalises the result, and is a function of its two arguments. The model takes it from
  the world as it is and assumes nothing about it.
\<close>

record world =
  penv :: env
  cwd :: jstring
  fs :: "jstring \<rightharpoonup> fs_node"
  path_join :: "jstring \<Rightarrow> jstring \<Rightarrow> jstring"

record issue =
  ipath :: "jstring list"
  imessage :: jstring
  icode :: jstring

datatype error =
    PlainError jstring
  | ZodError "issue list"
  | ReadError jstring
  | OtherError jstring

definition existsSync :: "world \<Rightarrow> jstring \<Rightarrow> bool" where
  "existsSync w p \<longleftrightarrow> fs w p \<noteq> None"

definition readFileSync :: "world \<Rightarrow> jstring \<Rightarrow> error + jstring" where
  "readFileSync w p =
     (case fs w p of Some (RegularFile content) \<Rightarrow> Inr content | _ \<Rightarrow> Inl (ReadError p))"

definition parseEnvFile :: "world \<Rightarrow> jstring \<Rightarrow> error + env" where
  "parseEnvFile w filePath =
     (case readFileSync w filePath of
        Inl e \<Rightarrow> Inl e
      | Inr content \<Rightarrow> Inr (parse_content content))"

text \<open>\<open>process.env.NODE_ENV || 'development'\<close>: unset and empty are both falsy.\<close>

definition mode :: "world \<Rightarrow> jstring" where
  "mode w = (case penv w (js ''NODE_ENV'') of
               None \<Rightarrow> js ''development''
             | Some m \<Rightarrow> if m = [] then js ''development'' else m)"

text \<open>The \<open>for\<close> loop of \<open>loadEnvVars\<close> over \<open>envFiles\<close>.\<close>

fun load_layers :: "world \<Rightarrow> jstring \<Rightarrow> jstring list \<Rightarrow> env \<Rightarrow> error + env" where
  "load_layers w rootDir [] env = Inr env"
| "load_layers w rootDir (file # rest) env =
     (let filePath = path_join w rootDir file in
      if existsSync w filePath then
        (case parseEnvFile w filePath of
           Inl e \<Rightarrow> Inl e
         | Inr parsed \<Rightarrow> load_layers w rootDir rest (object_assign env parsed))
      else load_layers w rootDir rest env)"

definition envFiles :: "jstring \<Rightarrow> jstring list" where
  "envFiles m = [js ''.env'', js ''.env.'' @ m, js ''.env.local'', js ''.env.'' @ m @ js ''.local'']"

text \<open>\<open>customPath\<close> is optional, and the empty string is falsy.\<close>

definition loadEnvVars :: "world \<Rightarrow> jstring option \<Rightarrow> error + env" where
  "loadEnvVars w customPath =
     (case customPath of
        Some p \<Rightarrow>
          if p \<noteq> [] \<and> existsSync w p then
            (case parseEnvFile w p of
               Inl e \<Rightarrow> Inl e
             | Inr parsed \<Rightarrow> Inr (object_assign Map.empty parsed))
          else load_layers w (cwd w) (envFiles (mode w)) Map.empty
      | None \<Rightarrow> load_layers w (cwd w) (envFiles (mode w)) Map.empty)"

text \<open>\<open>{ ...envVars, ...process.env }\<close>: the spread defines own properties one by one,
  the second operand after the first.\<close>

definition mergedEnv :: "env \<Rightarrow> env \<Rightarrow> env" where
  "mergedEnv envVars processEnv = envVars ++ processEnv"

section \<open>The module state and the public operations\<close>

text \<open>
  Objects that callers can hold live in a store: a reference is a number, \<open>heap\<close> gives
  the own properties of the object behind it, and \<open>nextRef\<close> is the first reference
  not yet handed out. \<open>runtimeEnv\<close> and \<open>isInitialized\<close> are the two module
  variables; \<open>console\<close> is what has been printed, oldest first. The texts are the
  source's without their pictographs and surrounding blank lines.
\<close>

datatype stream = Log | Warn | Err

record 'v state =
  heap :: "nat \<Rightarrow> (jstring \<rightharpoonup> 'v)"
  nextRef :: nat
  runtimeEnv :: nat
  isInitialized :: bool
  console :: "(stream \<times> jstring) list"

text \<open>The state when the module has been loaded: \<open>runtimeEnv = {}\<close>.\<close>

definition initial_state :: "'v state" where
  "initial_state =
     \<lparr>heap = (\<lambda>_. Map.empty), nextRef = 1, runtimeEnv = 0,
      isInitialized = False, console = []\<rparr>"

definition alloc :: "(jstring \<rightharpoonup> 'v) \<Rightarrow> 'v state \<Rightarrow> nat \<times> 'v state" where
  "alloc obj s = (nextRef s, s\<lparr>heap := (heap s)(nextRef s := obj), nextRef := Suc (nextRef s)\<rparr>)"

definition print :: "stream \<Rightarrow> jstring \<Rightarrow> 'v state \<Rightarrow> 'v state" where
  "print ch text s = s\<lparr>console := console s @ [(ch, text)]\<rparr>"

datatype 'a outcome = Returned 'a | Thrown error | Exited nat

datatype handler_outcome = HReturns | HThrows error | HExits nat

text \<open>The schema is its \<open>parse\<close>: a fresh object, or the error it throws. The handler
  is foreign code: it returns, throws, or ends the process.\<close>

record 'v config =
  schema :: "env \<Rightarrow> error + (jstring \<rightharpoonup> 'v)"
  envPath :: "jstring option"
  allowMissingInDev :: "bool option"
  onError :: "(issue list \<Rightarrow> handler_outcome) option"

text \<open>\<open>issue.path.join('.')\<close> and \<open>issue.path[0]\<close> inside a template string.\<close>

fun join_dot :: "jstring list \<Rightarrow> jstring" where
  "join_dot [] = []"
| "join_dot [x] = x"
| "join_dot (x # y # ys) = x @ js ''.'' @ join_dot (y # ys)"

definition path0 :: "jstring list \<Rightarrow> jstring" where
  "path0 p = (case p of [] \<Rightarrow> (js ''undefined'') | key # _ \<Rightarrow> key)"

definition print_all :: "stream \<Rightarrow> jstring list \<Rightarrow> 'v state \<Rightarrow> 'v state" where
  "print_all ch texts s = fold (print ch) texts s"

text \<open>\<open>handleValidationError\<close> has the return type \<open>never\<close>: the model returns what
  the caller of \<open>initEnv\<close> observes.\<close>

definition handleValidationError ::
  "world \<Rightarrow> issue list \<Rightarrow> bool option \<Rightarrow> 'v state \<Rightarrow> nat outcome \<times> 'v state" where
  "handleValidationError w issues allow s =
     (let isDev = (penv w (js ''NODE_ENV'') = Some (js ''development''));
          s1 = print Err (js ''EnvGuard: Validation failed'') s;
          s2 = print_all Err
                 (map (\<lambda>i. (js ''  '') @ join_dot (ipath i) @ js '': '' @ imessage i) issues) s1;
          s3 = print Err (js ''Required:'') s2;
          s4 = print_all Err
                 (map (\<lambda>i. (js ''  export '') @ path0 (ipath i) @ js ''=<value>'')
                    (filter (\<lambda>i. icode i = js ''invalid_type'') issues)) s3
      in if allow = Some True \<and> isDev
         then (Exited 0, print Warn (js ''Dev mode: Continuing'') s4)
         else (Exited 1, print Err (js ''Check your .env files'') s4))"

text \<open>The \<open>try\<close> block of \<open>initEnv\<close> and its \<open>catch\<close>.\<close>

definition validate :: "'v config \<Rightarrow> world \<Rightarrow> env \<Rightarrow> 'v state \<Rightarrow> nat outcome \<times> 'v state" where
  "validate config w merged s =
     (case schema config merged of
        Inr validated \<Rightarrow>
          (let (r, s1) = alloc validated s;
               s2 = s1\<lparr>runtimeEnv := r, isInitialized := True\<rparr>;
               s3 = (if penv w (js ''NODE_ENV'') \<noteq> Some (js ''production'')
                     then print Log (js ''EnvGuard: Validated'') s2 else s2)
           in (Returned r, s3))
      | Inl (ZodError issues) \<Rightarrow>
          (case onError config of
             Some handler \<Rightarrow>
               (case handler issues of
                  HReturns \<Rightarrow> (Thrown (ZodError issues), s)
                | HThrows e \<Rightarrow> (Thrown e, s)
                | HExits c \<Rightarrow> (Exited c, s))
           | None \<Rightarrow> handleValidationError w issues (allowMissingInDev config) s)
      | Inl e \<Rightarrow> (Thrown e, s))"

definition initEnv :: "'v config \<Rightarrow> world \<Rightarrow> 'v state \<Rightarrow> nat outcome \<times> 'v state" where
  "initEnv config w s =
     (if isInitialized s \<and> penv w (js ''NODE_ENV'') \<noteq> Some (js ''test'')
      then (Returned (runtimeEnv s), print Warn (js ''EnvGuard already initialized.'') s)
      else (case loadEnvVars w (envPath config) of
              Inl e \<Rightarrow> (Thrown e, s)
            | Inr envVars \<Rightarrow> validate config w (mergedEnv envVars (penv w)) s))"

text \<open>\<open>getEnv\<close>: \<open>{ ...runtimeEnv }\<close> is a new object with the same own properties.\<close>

definition getEnv :: "'v state \<Rightarrow> nat outcome \<times> 'v state" where
  "getEnv s =
     (if \<not> isInitialized s
      then (Thrown (PlainError (js ''EnvGuard not initialized. Call initEnv() first.'')), s)
      else (let (r, s1) = alloc (heap s (runtimeEnv s)) s in (Returned r, s1)))"

definition createEnv :: "'v config \<Rightarrow> world \<Rightarrow> 'v state \<Rightarrow> nat outcome \<times> 'v state" where
  "createEnv config w s =
     (case initEnv config w s of
        (Returned _, s1) \<Rightarrow> getEnv s1
      | (Thrown e, s1) \<Rightarrow> (Thrown e, s1)
      | (Exited c, s1) \<Rightarrow> (Exited c, s1))"

text \<open>What a caller can do to an object it holds: any change of its own properties.\<close>

definition mutate :: "nat \<Rightarrow> ((jstring \<rightharpoonup> 'v) \<Rightarrow> (jstring \<rightharpoonup> 'v)) \<Rightarrow> 'v state \<Rightarrow> 'v state" where
  "mutate r f s = s\<lparr>heap := (heap s)(r := f (heap s r))\<rparr>"

section \<open>The client and server schema helpers\<close>

text \<open>A raw shape is its fields in the order of \<open>Object.keys\<close>; \<open>z.object\<close> wraps it.\<close>

datatype 'f zod_object = ZodObject "(jstring \<times> 'f) list"

definition createServerEnv :: "(jstring \<times> 'f) list \<Rightarrow> error + 'f zod_object" where
  "createServerEnv shape = Inr (ZodObject shape)"

text \<open>The \<open>forEach\<close> over the keys: the first key without the prefix throws.\<close>

fun check_keys :: "jstring list \<Rightarrow> error option" where
  "check_keys [] = None"
| "check_keys (key # rest) =
     (if \<not> prefix (js ''NEXT_PUBLIC_'') key
      then Some (PlainError (js ''Client env '' @ [dquote] @ key @ [dquote] @
                             (js '' must start with NEXT_PUBLIC_'')))
      else check_keys rest)"

definition createClientEnv :: "(jstring \<times> 'f) list \<Rightarrow> error + 'f zod_object" where
  "createClientEnv shape =
     (case check_keys (map fst shape) of
        Some e \<Rightarrow> Inl e
      | None \<Rightarrow> Inr (ZodObject shape))"


section \<open>Notions used to state the properties\<close>

text \<open>The module variable \<open>runtimeEnv\<close> refers to an object that has been created.\<close>

definition wf_state :: "'v state \<Rightarrow> bool" where
  "wf_state s \<longleftrightarrow> runtimeEnv s < nextRef s"

text \<open>Two states with the same cache: the same module variables and the same store.\<close>

definition same_cache :: "'v state \<Rightarrow> 'v state \<Rightarrow> bool" where
  "same_cache s s' \<longleftrightarrow>
     isInitialized s' = isInitialized s \<and> runtimeEnv s' = runtimeEnv s \<and>
     heap s' = heap s \<and> nextRef s' = nextRef s"

text \<open>A caller makes the given calls of \<open>initEnv\<close> one after the other, each with its
  own configuration and in the world of its moment, and catches what they throw. The
  result is the state after the last call if none of them returned, and nothing as soon
  as one did.\<close>

fun failed_inits :: "('v config \<times> world) list \<Rightarrow> 'v state \<Rightarrow> 'v state option" where
  "failed_inits [] s = Some s"
| "failed_inits ((c, w) # rest) s =
     (case initEnv c w s of
        (Returned _, _) \<Rightarrow> None
      | (_, s1) \<Rightarrow> failed_inits rest s1)"

text \<open>One layer of the default set as the specification describes it: the entries of the
  file of that name in the working directory, none when there is no such file.\<close>

definition layer :: "world \<Rightarrow> jstring \<Rightarrow> env" where
  "layer w file =
     (case fs w (path_join w (cwd w) file) of
        Some (RegularFile content) \<Rightarrow> parse_content content
      | _ \<Rightarrow> Map.empty)"

text \<open>\<open>join_lines\<close> puts a line feed between the pieces: the inverse of splitting.\<close>

fun join_lines :: "jstring list \<Rightarrow> jstring" where
  "join_lines [] = []"
| "join_lines [l] = l"
| "join_lines (l # l' # ls) = l @ LF # join_lines (l' # ls)"

subsection \<open>Concrete worlds and configurations\<close>

text \<open>What \<open>path.join\<close> of POSIX returns for a directory such as \<open>/app\<close> and a
  name without separators or dot segments, where nothing is left to normalise.\<close>

definition plain_join :: "jstring \<Rightarrow> jstring \<Rightarrow> jstring" where
  "plain_join rootDir file = rootDir @ js ''/'' @ file"

definition w_unset :: world where
  "w_unset = \<lparr>penv = Map.empty, cwd = js ''/app'', fs = Map.empty, path_join = plain_join\<rparr>"

definition w_dev :: world where
  "w_dev = \<lparr>penv = [js ''NODE_ENV'' \<mapsto> js ''development''], cwd = js ''/app'', fs = Map.empty, path_join = plain_join\<rparr>"

definition w_port :: world where
  "w_port = \<lparr>penv = [js ''PORT'' \<mapsto> js ''3000''], cwd = js ''/app'', fs = Map.empty, path_join = plain_join\<rparr>"

definition port_issue :: issue where
  "port_issue = \<lparr>ipath = [js ''PORT''], imessage = js ''Required'', icode = js ''invalid_type''\<rparr>"

text \<open>\<open>z.object({ PORT: z.string() })\<close>, without and with a handler that returns.\<close>

definition port_schema :: "env \<Rightarrow> error + env" where
  "port_schema m = (case m (js ''PORT'') of
                      Some v \<Rightarrow> Inr [js ''PORT'' \<mapsto> v]
                    | None \<Rightarrow> Inl (ZodError [port_issue]))"

definition cfg_port :: "jstring config" where
  "cfg_port = \<lparr>schema = port_schema, envPath = None, allowMissingInDev = None,
               onError = None\<rparr>"

definition cfg_port_handled :: "jstring config" where
  "cfg_port_handled = \<lparr>schema = port_schema, envPath = None, allowMissingInDev = None,
                       onError = Some (\<lambda>_. HReturns)\<rparr>"

text \<open>A working directory with a base file and a development file, and one more file
  outside the default set; \<open>NODE_ENV\<close> is unset and \<open>PORT\<close> is set in the process
  environment.\<close>

definition w_files :: world where
  "w_files =
     \<lparr>penv = [js ''PORT'' \<mapsto> js ''8080''],
      cwd = js ''/app'',
      fs = [js ''/app/.env'' \<mapsto> RegularFile (js ''PORT=3000'' @ [LF] @ js ''HOST=db''),
            (js ''/app/.env.development'') \<mapsto> RegularFile (js ''PORT=4000''),
            (js ''/app/custom.env'') \<mapsto> RegularFile (js ''ONLY=1'')],
      path_join = plain_join\<rparr>"


text \<open>\<open>NODE_ENV\<close> is set to the empty string, and the only file is the development
  layer.\<close>

definition w_empty_mode :: world where
  "w_empty_mode =
     \<lparr>penv = [js ''NODE_ENV'' \<mapsto> []],
      cwd = js ''/app'',
      fs = [js ''/app/.env.development'' \<mapsto> RegularFile (js ''PORT=4000'')],
      path_join = plain_join\<rparr>"

section \<open>Facts about strings\<close>

lemma unit_of_eq_iff [simp]: "unit_of c = unit_of d \<longleftrightarrow> c = d"
proof
  assume "unit_of c = unit_of d"
  then have "unat (of_nat (of_char c) :: 16 word) = unat (of_nat (of_char d) :: 16 word)"
    by (simp add: unit_of_def)
  moreover have "(of_char x :: nat) < 2 ^ 16" for x
  proof -
    have "(of_char x :: nat) mod 256 < 256"
      by (rule mod_less_divisor) simp
    then have "(of_char x :: nat) < 256"
      by (simp only: of_char_mod_256)
    then show ?thesis by (rule order_less_trans) simp
  qed
  ultimately show "c = d"
    by (simp add: unat_of_nat)
qed simp

lemma js_eq_iff [simp]: "js a = js b \<longleftrightarrow> a = b"
  by (auto simp: js_def inj_on_def dest!: map_inj_on [of unit_of a b])

lemma js_Nil_iff [simp]: "js a = [] \<longleftrightarrow> a = []"
  by (simp add: js_def)

section \<open>Facts about the state\<close>

lemma print_fields [simp]:
  "heap (print ch t s) = heap s" "nextRef (print ch t s) = nextRef s"
  "runtimeEnv (print ch t s) = runtimeEnv s" "isInitialized (print ch t s) = isInitialized s"
  "console (print ch t s) = console s @ [(ch, t)]"
  by (simp_all add: print_def)

lemma print_all_fields [simp]:
  "heap (print_all ch ts s) = heap s" "nextRef (print_all ch ts s) = nextRef s"
  "runtimeEnv (print_all ch ts s) = runtimeEnv s"
  "isInitialized (print_all ch ts s) = isInitialized s"
  unfolding print_all_def by (induction ts arbitrary: s) simp_all

lemma same_cache_refl [simp]: "same_cache s s"
  by (simp add: same_cache_def)

lemma same_cache_print [simp]: "same_cache s (print ch t s)"
  by (simp add: same_cache_def)

lemma same_cache_trans: "same_cache a b \<Longrightarrow> same_cache b c \<Longrightarrow> same_cache a c"
  by (simp add: same_cache_def)

lemma handleValidationError_cases:
  "handleValidationError w issues allow s = (out, s') \<Longrightarrow>
     same_cache s s' \<and>
     (if allow = Some True \<and> penv w (js ''NODE_ENV'') = Some (js ''development'')
      then out = Exited 0 \<and> last (console s') = (Warn, js ''Dev mode: Continuing'')
      else out = Exited 1 \<and> last (console s') = (Err, js ''Check your .env files''))"
  by (auto simp: handleValidationError_def Let_def same_cache_def split: if_splits)

lemma validate_Returned:
  "validate c w m s = (Returned r, s') \<Longrightarrow>
     isInitialized s' \<and> runtimeEnv s' = r \<and> r = nextRef s \<and> nextRef s' = Suc (nextRef s) \<and>
     (\<exists>v. schema c m = Inr v \<and> heap s' = (heap s)(r := v))"
  by (auto simp: validate_def alloc_def Let_def handleValidationError_def
           split: sum.splits error.splits option.splits handler_outcome.splits if_splits)

lemma validate_not_Returned:
  "validate c w m s = (out, s') \<Longrightarrow> \<forall>r. out \<noteq> Returned r \<Longrightarrow> same_cache s s'"
  by (auto simp: validate_def alloc_def Let_def
           split: sum.splits error.splits option.splits handler_outcome.splits if_splits
           dest: handleValidationError_cases)

lemma initEnv_Returned:
  "initEnv c w s = (Returned r, s') \<Longrightarrow> isInitialized s' \<and> runtimeEnv s' = r"
  by (auto simp: initEnv_def split: if_splits sum.splits dest: validate_Returned)

lemma initEnv_not_Returned:
  "initEnv c w s = (out, s') \<Longrightarrow> \<forall>r. out \<noteq> Returned r \<Longrightarrow> same_cache s s'"
  by (auto simp: initEnv_def split: if_splits sum.splits dest: validate_not_Returned)

lemma failed_inits_same_cache:
  "failed_inits calls s = Some s' \<Longrightarrow> same_cache s s'"
proof (induction calls arbitrary: s)
  case Nil
  then show ?case by simp
next
  case (Cons a calls)
  obtain c w where a: "a = (c, w)" by (cases a)
  obtain out s1 where i: "initEnv c w s = (out, s1)" by (cases "initEnv c w s")
  from Cons.prems a i have nr: "\<forall>r. out \<noteq> Returned r" and f: "failed_inits calls s1 = Some s'"
    by (auto split: outcome.splits)
  from initEnv_not_Returned [OF i nr] Cons.IH [OF f] show ?case
    by (rule same_cache_trans)
qed

text \<open>Without files, the loader finds nothing.\<close>

lemma loadEnvVars_no_files:
  "fs w = Map.empty \<Longrightarrow> loadEnvVars w None = Inr Map.empty"
  by (simp add: loadEnvVars_def envFiles_def existsSync_def)

lemma initEnv_keeps_initialized:
  assumes "isInitialized s"
  shows "isInitialized (snd (initEnv c w s))"
proof (cases "\<exists>r. fst (initEnv c w s) = Returned r")
  case True
  then obtain r where "initEnv c w s = (Returned r, snd (initEnv c w s))"
    by (auto simp: prod_eq_iff)
  from initEnv_Returned [OF this] show ?thesis by simp
next
  case False
  have "same_cache s (snd (initEnv c w s))"
    by (rule initEnv_not_Returned [of c w s "fst (initEnv c w s)"]) (use False in simp_all)
  with assms show ?thesis by (simp add: same_cache_def)
qed

lemma getEnv_keeps_cache:
  "isInitialized (snd (getEnv s)) = isInitialized s \<and>
   runtimeEnv (snd (getEnv s)) = runtimeEnv s"
  by (simp add: getEnv_def alloc_def)

lemma createEnv_keeps_initialized:
  assumes "isInitialized s"
  shows "isInitialized (snd (createEnv c w s))"
  using initEnv_keeps_initialized [OF assms, of c w] getEnv_keeps_cache [of "snd (initEnv c w s)"]
  by (auto simp: createEnv_def split: prod.splits outcome.splits)

lemma mutate_keeps_cache:
  "isInitialized (mutate r f s) = isInitialized s \<and> runtimeEnv (mutate r f s) = runtimeEnv s"
  by (simp add: mutate_def)

lemma initEnv_port_ok:
  "initEnv cfg_port w_port initial_state
     = (Returned 1, snd (initEnv cfg_port w_port (initial_state :: jstring state)))"
  by (simp add: prod_eq_iff initEnv_def initial_state_def cfg_port_def w_port_def
        loadEnvVars_no_files validate_def mergedEnv_def port_schema_def alloc_def)

lemma createEnv_port_ok:
  "isInitialized (snd (createEnv cfg_port w_port (initial_state :: jstring state))) \<and>
   runtimeEnv (snd (createEnv cfg_port w_port (initial_state :: jstring state))) = 1 \<and>
   fst (createEnv cfg_port w_port (initial_state :: jstring state)) = Returned 2"
  by (simp add: createEnv_def getEnv_def initEnv_def initial_state_def cfg_port_def w_port_def
        loadEnvVars_no_files validate_def mergedEnv_def port_schema_def alloc_def)

lemma initEnv_port_handled_fails:
  "initEnv cfg_port_handled w_unset s
     = (if isInitialized s then (Returned (runtimeEnv s), print Warn (js ''EnvGuard already initialized.'') s)
        else (Thrown (ZodError [port_issue]), s))"
  by (simp add: initEnv_def cfg_port_handled_def w_unset_def
        loadEnvVars_no_files validate_def mergedEnv_def port_schema_def)

section \<open>The Diagnostics Reporter\<close>

text \<open>
  C1, as the claim states it, fails: with \<open>NODE_ENV\<close> unset the mode that the loader
  resolves is \<open>development\<close>, the tolerance flag is set, and the reporter still ends the
  process with exit code 1.
\<close>

theorem handleValidationError_unset_counterexample:
  "penv w_unset (js ''NODE_ENV'') = None \<and> mode w_unset = js ''development'' \<and>
   fst (handleValidationError w_unset [port_issue] (Some True) (initial_state :: jstring state))
     = Exited 1"
  by (simp add: w_unset_def mode_def handleValidationError_def print_all_def)

text \<open>
  C1, amended: the reporter ends the process with exit code 0, after the warning banner,
  exactly when \<open>allowMissingInDev\<close> is true and \<open>NODE_ENV\<close> is set to the very string
  \<open>development\<close> (an unset \<open>NODE_ENV\<close> is not development here); in every other case it
  ends the process with exit code 1; it never returns and never throws.
\<close>

theorem handleValidationError_disposition:
  "handleValidationError w issues allow s = (out, s') \<Longrightarrow>
     (allow = Some True \<and> penv w (js ''NODE_ENV'') = Some (js ''development'') \<longrightarrow>
        out = Exited 0 \<and> last (console s') = (Warn, js ''Dev mode: Continuing'')) \<and>
     (\<not> (allow = Some True \<and> penv w (js ''NODE_ENV'') = Some (js ''development'')) \<longrightarrow> out = Exited 1) \<and>
     (\<forall>r. out \<noteq> Returned r) \<and> (\<forall>e. out \<noteq> Thrown e)"
  using handleValidationError_cases [of w issues allow s out s']
  by (auto split: if_splits)

theorem handleValidationError_disposition_witness:
  "fst (handleValidationError w_dev [port_issue] (Some True) (initial_state :: jstring state))
     = Exited 0 \<and>
   last (console (snd (handleValidationError w_dev [port_issue] (Some True)
                         (initial_state :: jstring state))))
     = (Warn, js ''Dev mode: Continuing'') \<and>
   fst (handleValidationError w_dev [port_issue] None (initial_state :: jstring state))
     = Exited 1"
  using handleValidationError_disposition [of w_dev "[port_issue]" "Some True"
           "initial_state :: jstring state"
           "fst (handleValidationError w_dev [port_issue] (Some True) (initial_state :: jstring state))"
           "snd (handleValidationError w_dev [port_issue] (Some True) (initial_state :: jstring state))"]
        handleValidationError_disposition [of w_dev "[port_issue]" None
           "initial_state :: jstring state"
           "fst (handleValidationError w_dev [port_issue] None (initial_state :: jstring state))"
           "snd (handleValidationError w_dev [port_issue] None (initial_state :: jstring state))"]
  by (simp add: w_dev_def)

section \<open>Repeated initialisation\<close>

text \<open>
  C6: a snapshot exists exactly when the initialised flag is set: a call of \<open>initEnv\<close>
  that returns sets it (\<open>initEnv_Returned\<close>), and no later call of \<open>initEnv\<close>,
  \<open>getEnv\<close> or \<open>createEnv\<close> and no write of a caller unsets it
  (\<open>initEnv_keeps_initialized\<close>, \<open>getEnv_keeps_cache\<close>,
  \<open>createEnv_keeps_initialized\<close>, \<open>mutate_keeps_cache\<close>). In every such state a call
  of \<open>initEnv\<close> outside test mode, whatever its configuration and whatever the files
  and variables of its world, prints the warning and returns the reference of the
  existing snapshot, and changes nothing but the console: the result mentions neither
  the loader nor the schema.
\<close>

theorem initEnv_already_initialized:
  assumes "isInitialized s"
      and "penv w (js ''NODE_ENV'') \<noteq> Some (js ''test'')"
  shows "initEnv c w s
           = (Returned (runtimeEnv s), print Warn (js ''EnvGuard already initialized.'') s) \<and>
         same_cache s (snd (initEnv c w s)) \<and>
         heap (snd (initEnv c w s)) (runtimeEnv s) = heap s (runtimeEnv s)"
  using assms by (simp add: initEnv_def)

text \<open>The witness: \<open>createEnv(a)\<close>, and then \<open>initEnv(b)\<close> with another
  configuration in another world.\<close>

theorem initEnv_already_initialized_witness:
  "isInitialized (snd (createEnv cfg_port w_port (initial_state :: jstring state))) \<and>
   penv w_unset (js ''NODE_ENV'') \<noteq> Some (js ''test'') \<and>
   runtimeEnv (snd (createEnv cfg_port w_port (initial_state :: jstring state))) = 1 \<and>
   fst (initEnv cfg_port_handled w_unset
          (snd (createEnv cfg_port w_port (initial_state :: jstring state)))) = Returned 1 \<and>
   fst (initEnv cfg_port w_port (initial_state :: jstring state)) = Returned 1"
proof -
  let ?s = "snd (createEnv cfg_port w_port (initial_state :: jstring state))"
  have h: "penv w_unset (js ''NODE_ENV'') \<noteq> Some (js ''test'')"
    by (simp add: w_unset_def)
  have i: "isInitialized ?s" and r: "runtimeEnv ?s = 1"
    using createEnv_port_ok by simp_all
  from initEnv_already_initialized [OF i h, of cfg_port_handled] r
  have "fst (initEnv cfg_port_handled w_unset ?s) = Returned 1"
    by simp
  with h i r initEnv_port_ok show ?thesis
    by (simp add: prod_eq_iff)
qed

section \<open>The cache before the first success\<close>

text \<open>
  C8: after any number of calls of \<open>initEnv\<close> from the start of the module, none of
  which returned, the initialised flag is unset, \<open>runtimeEnv\<close> is still the empty
  object the module started with, the store is unchanged, and \<open>getEnv\<close> throws the
  error that names \<open>initEnv()\<close>. A single call that does not return leaves the cache
  as it was (the case of one call, from any state, is \<open>initEnv_not_Returned\<close>).
\<close>

theorem cache_empty_until_success:
  assumes "failed_inits calls initial_state = Some s"
  shows "\<not> isInitialized s \<and> runtimeEnv s = runtimeEnv (initial_state :: 'v state) \<and>
         heap s = heap (initial_state :: 'v state) \<and> heap s (runtimeEnv s) = Map.empty \<and>
         getEnv s = (Thrown (PlainError (js ''EnvGuard not initialized. Call initEnv() first.'')), s)"
  using failed_inits_same_cache [OF assms]
  by (simp add: same_cache_def getEnv_def initial_state_def)

theorem cache_empty_until_success_witness:
  "failed_inits [(cfg_port_handled, w_unset), (cfg_port_handled, w_unset)] initial_state
     = Some (initial_state :: jstring state) \<and>
   \<not> isInitialized (initial_state :: jstring state) \<and>
   fst (getEnv (initial_state :: jstring state))
     = Thrown (PlainError (js ''EnvGuard not initialized. Call initEnv() first.''))"
proof -
  have i: "\<not> isInitialized (initial_state :: jstring state)"
    by (simp add: initial_state_def)
  have f: "failed_inits [(cfg_port_handled, w_unset), (cfg_port_handled, w_unset)] initial_state
             = Some (initial_state :: jstring state)"
    using i by (simp add: initEnv_port_handled_fails)
  from cache_empty_until_success [OF f] f show ?thesis by simp
qed
section \<open>Reading the snapshot\<close>

lemma initial_state_wf: "wf_state initial_state"
  by (simp add: wf_state_def initial_state_def)

lemma initEnv_wf:
  assumes "initEnv c w s = (out, s')" and "wf_state s"
  shows "wf_state s'"
proof (cases "\<exists>r. out = Returned r")
  case True
  with assms show ?thesis
    by (auto simp: initEnv_def wf_state_def split: if_splits sum.splits dest!: validate_Returned)
next
  case False
  with initEnv_not_Returned [OF assms(1)] assms(2) show ?thesis
    by (simp add: wf_state_def same_cache_def)
qed

lemma getEnv_initialized:
  "isInitialized s \<Longrightarrow>
     getEnv s = (Returned (nextRef s),
                 s\<lparr>heap := (heap s)(nextRef s := heap s (runtimeEnv s)),
                   nextRef := Suc (nextRef s)\<rparr>)"
  by (simp add: getEnv_def alloc_def)

text \<open>
  C7: in a state reached after a successful initialisation, \<open>getEnv\<close> returns a
  reference to a new object, different from the cached one, with the same own properties
  as the cached object, and leaves the cache as it was. Whatever the caller then does to
  the object it received, the cached object keeps its properties and the next \<open>getEnv\<close>
  returns them again; the state after it meets the same conditions, so this holds for
  every later call too.
\<close>

theorem getEnv_returns_copy:
  assumes "wf_state s" and "isInitialized s"
  shows "\<exists>r s1. getEnv s = (Returned r, s1) \<and>
           r \<noteq> runtimeEnv s1 \<and> runtimeEnv s1 = runtimeEnv s \<and>
           heap s1 r = heap s (runtimeEnv s) \<and>
           heap s1 (runtimeEnv s1) = heap s (runtimeEnv s) \<and>
           (\<forall>f. wf_state (mutate r f s1) \<and> isInitialized (mutate r f s1) \<and>
                heap (mutate r f s1) (runtimeEnv (mutate r f s1)) = heap s (runtimeEnv s) \<and>
                (\<exists>r' s2. getEnv (mutate r f s1) = (Returned r', s2) \<and>
                          heap s2 r' = heap s (runtimeEnv s)))"
  using assms
  by (simp add: getEnv_initialized getEnv_def alloc_def mutate_def wf_state_def)

theorem getEnv_returns_copy_witness:
  "wf_state (snd (initEnv cfg_port w_port (initial_state :: jstring state))) \<and>
   isInitialized (snd (initEnv cfg_port w_port (initial_state :: jstring state))) \<and>
   (\<exists>r s1. getEnv (snd (initEnv cfg_port w_port (initial_state :: jstring state)))
              = (Returned r, s1) \<and>
            r \<noteq> runtimeEnv s1 \<and> heap s1 r (js ''PORT'') = Some (js ''3000'') \<and>
            (\<exists>r' s2. getEnv (mutate r (\<lambda>obj. obj(js ''PORT'' \<mapsto> js ''9999'')) s1) = (Returned r', s2) \<and>
                      heap s2 r' (js ''PORT'') = Some (js ''3000'')))"
proof -
  let ?s = "snd (initEnv cfg_port w_port (initial_state :: jstring state))"
  have w: "wf_state ?s"
    using initEnv_wf [OF initEnv_port_ok initial_state_wf] .
  have i: "isInitialized ?s"
    using initEnv_Returned [OF initEnv_port_ok] by simp
  have p: "heap ?s (runtimeEnv ?s) (js ''PORT'') = Some (js ''3000'')"
    by (simp add: initEnv_def initial_state_def cfg_port_def w_port_def
          loadEnvVars_no_files validate_def mergedEnv_def port_schema_def alloc_def)
  from getEnv_returns_copy [OF w i] obtain r s1 where
    g: "getEnv ?s = (Returned r, s1)" "r \<noteq> runtimeEnv s1"
       "heap s1 r = heap ?s (runtimeEnv ?s)"
       "\<forall>f. \<exists>r' s2. getEnv (mutate r f s1) = (Returned r', s2) \<and>
                     heap s2 r' = heap ?s (runtimeEnv ?s)"
    by blast
  from g(4) obtain r' s2 where
    "getEnv (mutate r (\<lambda>obj. obj(js ''PORT'' \<mapsto> js ''9999'')) s1) = (Returned r', s2)"
    "heap s2 r' = heap ?s (runtimeEnv ?s)"
    by blast
  with w i g p show ?thesis by auto
qed

section \<open>Merging and validation\<close>

text \<open>
  C3: when \<open>initEnv\<close> gets past the already-initialised check and the loader returns
  the file-derived mapping, the mapping handed to the schema's \<open>parse\<close> holds, for every
  key of the process environment, the process environment's value, and for every other
  key what the files gave (nothing when they gave nothing).
\<close>

theorem mergedEnv_process_env_wins:
  assumes "\<not> (isInitialized s \<and> penv w (js ''NODE_ENV'') \<noteq> Some (js ''test''))"
      and "loadEnvVars w (envPath c) = Inr envVars"
  shows "\<exists>m. initEnv c w s = validate c w m s \<and>
             (\<forall>k v. penv w k = Some v \<longrightarrow> m k = Some v) \<and>
             (\<forall>k. penv w k = None \<longrightarrow> m k = envVars k)"
proof -
  have "initEnv c w s = validate c w (mergedEnv envVars (penv w)) s"
    using assms by (auto simp: initEnv_def)
  moreover have "\<forall>k v. penv w k = Some v \<longrightarrow> mergedEnv envVars (penv w) k = Some v"
    by (simp add: mergedEnv_def)
  moreover have "\<forall>k. penv w k = None \<longrightarrow> mergedEnv envVars (penv w) k = envVars k"
    by (simp add: mergedEnv_def map_add_def)
  ultimately show ?thesis by blast
qed

text \<open>
  C10: when the schema's \<open>parse\<close> throws a \<open>ZodError\<close>, a handler, if there is one,
  receives its issues; once the handler has returned, \<open>initEnv\<close> throws the same
  \<open>ZodError\<close> (what a handler throws, or the exit it asks for, takes its place).
  Without a handler the issues go to the reporter. On all these paths the module
  variables and the store are what they were: nothing is marked initialised.
\<close>

theorem initEnv_zod_error:
  assumes "\<not> (isInitialized s \<and> penv w (js ''NODE_ENV'') \<noteq> Some (js ''test''))"
      and "loadEnvVars w (envPath c) = Inr envVars"
      and "schema c (mergedEnv envVars (penv w)) = Inl (ZodError issues)"
  shows "(\<forall>h. onError c = Some h \<longrightarrow>
            initEnv c w s = (case h issues of
                               HReturns \<Rightarrow> (Thrown (ZodError issues), s)
                             | HThrows e \<Rightarrow> (Thrown e, s)
                             | HExits code \<Rightarrow> (Exited code, s))) \<and>
         (\<forall>h. onError c = Some h \<and> h issues = HReturns \<longrightarrow>
            initEnv c w s = (Thrown (ZodError issues), s)) \<and>
         (onError c = None \<longrightarrow>
            initEnv c w s = handleValidationError w issues (allowMissingInDev c) s) \<and>
         same_cache s (snd (initEnv c w s)) \<and>
         isInitialized (snd (initEnv c w s)) = isInitialized s"
proof -
  have v: "initEnv c w s = validate c w (mergedEnv envVars (penv w)) s"
    using assms by (auto simp: initEnv_def)
  have nr: "\<forall>r. fst (validate c w (mergedEnv envVars (penv w)) s) \<noteq> Returned r"
    using assms(3)
    by (auto simp: validate_def handleValidationError_def Let_def
             split: option.splits handler_outcome.splits)
  have "same_cache s (snd (validate c w (mergedEnv envVars (penv w)) s))"
    by (rule validate_not_Returned [OF _ nr]) simp
  with v have sc: "same_cache s (snd (initEnv c w s))"
    by simp
  show ?thesis
    using v assms(3) sc
    by (auto simp: validate_def same_cache_def split: handler_outcome.splits)
qed

theorem initEnv_zod_error_witness:
  "\<not> isInitialized (initial_state :: jstring state) \<and>
   loadEnvVars w_unset (envPath cfg_port_handled) = Inr Map.empty \<and>
   schema cfg_port_handled (mergedEnv Map.empty (penv w_unset)) = Inl (ZodError [port_issue]) \<and>
   initEnv cfg_port_handled w_unset initial_state
     = (Thrown (ZodError [port_issue]), initial_state :: jstring state) \<and>
   fst (initEnv cfg_port w_unset (initial_state :: jstring state)) = Exited 1"
proof -
  have n: "\<not> isInitialized (initial_state :: jstring state)"
    by (simp add: initial_state_def)
  then have a: "\<not> (isInitialized (initial_state :: jstring state) \<and>
                   penv w_unset (js ''NODE_ENV'') \<noteq> Some (js ''test''))"
    by simp
  have b: "loadEnvVars w_unset (envPath cfg_port_handled) = Inr Map.empty"
          "loadEnvVars w_unset (envPath cfg_port) = Inr Map.empty"
    by (simp_all add: cfg_port_handled_def cfg_port_def loadEnvVars_no_files w_unset_def)
  have c: "schema cfg_port_handled (mergedEnv Map.empty (penv w_unset)) = Inl (ZodError [port_issue])"
          "schema cfg_port (mergedEnv Map.empty (penv w_unset)) = Inl (ZodError [port_issue])"
    by (simp_all add: cfg_port_handled_def cfg_port_def mergedEnv_def w_unset_def port_schema_def)
  have d: "onError cfg_port_handled = Some (\<lambda>_. HReturns)" "onError cfg_port = None"
    by (simp_all add: cfg_port_handled_def cfg_port_def)
  from initEnv_zod_error [OF a b(1) c(1)] d(1)
  have 1: "initEnv cfg_port_handled w_unset initial_state
             = (Thrown (ZodError [port_issue]), initial_state :: jstring state)"
    by simp
  from initEnv_zod_error [OF a b(2) c(2)] d(2)
  have "initEnv cfg_port w_unset (initial_state :: jstring state)
          = handleValidationError w_unset [port_issue] (allowMissingInDev cfg_port) initial_state"
    by simp
  then have 2: "fst (initEnv cfg_port w_unset (initial_state :: jstring state)) = Exited 1"
    by (simp add: handleValidationError_def w_unset_def cfg_port_def)
  from n b c 1 2 show ?thesis by simp
qed
section \<open>The loader\<close>

lemmas parser_defs =
  parse_content_def parse_line_def match_assignment_def trim_def is_whitespace_def
  is_line_terminator_def startsWith_def endsWith_def slice_1_m1_def set_prop_def
  LF_def CR_def LS_def PS_def dquote_def squote_def hash_sign_def eq_sign_def
  js_def unit_of_def

lemma parse_lines_no_proto:
  "env (js ''__proto__'') = None \<Longrightarrow> parse_lines ls env (js ''__proto__'') = None"
  by (induction ls arbitrary: env) (auto simp: set_prop_def split: option.splits)

lemma parse_content_no_proto: "parse_content content (js ''__proto__'') = None"
  by (simp add: parse_content_def parse_lines_no_proto)

lemma object_assign_map_add:
  "source (js ''__proto__'') = None \<Longrightarrow> object_assign target source = target ++ source"
  by (auto simp: object_assign_def set_prop_def map_add_def fun_eq_iff split: option.splits)

lemma layer_no_proto: "layer w file (js ''__proto__'') = None"
  by (simp add: layer_def parse_content_no_proto split: option.splits fs_node.splits)

lemma load_layers_step:
  "fs w (path_join w (cwd w) f) \<noteq> Some Unreadable \<Longrightarrow>
     load_layers w (cwd w) (f # files) env = load_layers w (cwd w) files (env ++ layer w f)"
proof (cases "fs w (path_join w (cwd w) f)")
  case None
  then show ?thesis
    by (simp add: existsSync_def layer_def)
next
  case (Some node)
  assume "fs w (path_join w (cwd w) f) \<noteq> Some Unreadable"
  with Some obtain content where "node = RegularFile content"
    by (cases node) auto
  with Some show ?thesis
    by (simp add: existsSync_def layer_def parseEnvFile_def readFileSync_def
          object_assign_map_add parse_content_no_proto)
qed

lemma load_layers_foldl:
  "\<forall>f \<in> set files. fs w (path_join w (cwd w) f) \<noteq> Some Unreadable \<Longrightarrow>
     load_layers w (cwd w) files env = Inr (foldl (\<lambda>acc f. acc ++ layer w f) env files)"
proof (induction files arbitrary: env)
  case Nil
  then show ?case by simp
next
  case (Cons f files)
  then have "load_layers w (cwd w) (f # files) env
               = load_layers w (cwd w) files (env ++ layer w f)"
    by (simp add: load_layers_step del: load_layers.simps)
  with Cons show ?case by simp
qed

lemma load_layers_unreadable:
  "\<exists>f \<in> set files. fs w (path_join w (cwd w) f) = Some Unreadable \<Longrightarrow>
     \<exists>q. load_layers w (cwd w) files env = Inl (ReadError q)"
proof (induction files arbitrary: env)
  case Nil
  then show ?case by simp
next
  case (Cons f files)
  show ?case
  proof (cases "fs w (path_join w (cwd w) f) = Some Unreadable")
    case True
    then show ?thesis
      by (simp add: existsSync_def parseEnvFile_def readFileSync_def)
  next
    case False
    with Cons.prems have "\<exists>f \<in> set files. fs w (path_join w (cwd w) f) = Some Unreadable"
      by auto
    from Cons.IH [OF this] load_layers_step [OF False] show ?thesis
      by (simp del: load_layers.simps)
  qed
qed

lemma load_layers_default:
  assumes "\<forall>f \<in> set (envFiles m). fs w (path_join w (cwd w) f) \<noteq> Some Unreadable"
  shows "load_layers w (cwd w) (envFiles m) Map.empty
           = Inr (layer w (js ''.env'') ++ layer w (js ''.env.'' @ m) ++
                  layer w (js ''.env.local'') ++ layer w (js ''.env.'' @ m @ js ''.local''))"
  using load_layers_foldl [OF assms, of Map.empty]
  by (simp add: envFiles_def)

lemma loadEnvVars_default:
  "customPath = None \<or> customPath = Some [] \<or> (customPath = Some p \<and> fs w p = None) \<Longrightarrow>
     loadEnvVars w customPath = load_layers w (cwd w) (envFiles (mode w)) Map.empty"
  by (auto simp: loadEnvVars_def existsSync_def)

text \<open>
  C4, as the claim states it, fails: \<open>NODE_ENV\<close> is set, to the empty string, so the
  claim takes the empty mode, and none of its four candidates \<open>.env\<close>, \<open>.env.\<close>,
  \<open>.env.local\<close>, \<open>.env..local\<close> exists in the working directory: its result is the
  empty mapping. The code takes the empty string for unset, reads \<open>.env.development\<close>
  and returns its entry.
\<close>

theorem loadEnvVars_empty_mode_counterexample:
  "penv w_empty_mode (js ''NODE_ENV'') = Some [] \<and>
   fs w_empty_mode (path_join w_empty_mode (cwd w_empty_mode) (js ''.env'')) = None \<and>
   fs w_empty_mode (path_join w_empty_mode (cwd w_empty_mode) (js ''.env.'' @ [])) = None \<and>
   fs w_empty_mode (path_join w_empty_mode (cwd w_empty_mode) (js ''.env.local'')) = None \<and>
   fs w_empty_mode (path_join w_empty_mode (cwd w_empty_mode) (js ''.env.'' @ [] @ js ''.local''))
     = None \<and>
   loadEnvVars w_empty_mode None = Inr [js ''PORT'' \<mapsto> js ''4000'']"
proof -
  have m: "mode w_empty_mode = js ''development''"
    by (simp add: mode_def w_empty_mode_def)
  have r: "\<forall>f \<in> set (envFiles (mode w_empty_mode)).
             fs w_empty_mode (path_join w_empty_mode (cwd w_empty_mode) f) \<noteq> Some Unreadable"
    by (simp add: m envFiles_def w_empty_mode_def plain_join_def)
  have l: "layer w_empty_mode (js ''.env'') = Map.empty"
          "layer w_empty_mode (js ''.env.development'') = [js ''PORT'' \<mapsto> js ''4000'']"
          "layer w_empty_mode (js ''.env.local'') = Map.empty"
          "layer w_empty_mode (js ''.env.development.local'') = Map.empty"
    by (simp_all add: layer_def w_empty_mode_def plain_join_def parser_defs)
  have n: "js ''.env.'' @ js ''development'' = js ''.env.development''"
          "js ''.env.'' @ js ''development'' @ js ''.local'' = js ''.env.development.local''"
    by (simp_all add: js_def)
  have 1: "loadEnvVars w_empty_mode None = Inr [js ''PORT'' \<mapsto> js ''4000'']"
    using load_layers_default [OF r]
    by (simp add: loadEnvVars_def m n l)
  have 2: "penv w_empty_mode (js ''NODE_ENV'') = Some []"
          "fs w_empty_mode (path_join w_empty_mode (cwd w_empty_mode) (js ''.env'')) = None"
          "fs w_empty_mode (path_join w_empty_mode (cwd w_empty_mode) (js ''.env.'' @ [])) = None"
          "fs w_empty_mode (path_join w_empty_mode (cwd w_empty_mode) (js ''.env.local'')) = None"
          "fs w_empty_mode (path_join w_empty_mode (cwd w_empty_mode)
             (js ''.env.'' @ [] @ js ''.local'')) = None"
    by (simp_all add: w_empty_mode_def plain_join_def js_def)
  from 1 2 show ?thesis by simp
qed

text \<open>
  C4, amended. A non-empty explicit path that names a readable file gives that file's
  parsed entries and nothing else. Without an explicit path, with an empty one, or with
  one that names nothing, and when every default file that exists can be read, the
  result is the four default layers merged in the order \<open>.env\<close>, \<open>.env.<mode>\<close>,
  \<open>.env.local\<close>, \<open>.env.<mode>.local\<close>, each name joined to the working directory by
  \<open>path.join\<close>; \<open>m ++ n\<close> takes the entry of \<open>n\<close> wherever \<open>n\<close> has one, and a
  layer whose file is missing adds nothing. A file that exists and cannot be read, the
  explicit one or one of the default set, makes the loader throw. The mode is
  \<open>NODE_ENV\<close>, and \<open>development\<close> when \<open>NODE_ENV\<close> is unset or empty.
\<close>

theorem loadEnvVars_selection:
  "(customPath = Some p \<and> p \<noteq> [] \<and> fs w p = Some (RegularFile content) \<longrightarrow>
      loadEnvVars w customPath = Inr (parse_content content)) \<and>
   (customPath = Some p \<and> p \<noteq> [] \<and> fs w p = Some Unreadable \<longrightarrow>
      loadEnvVars w customPath = Inl (ReadError p)) \<and>
   (customPath = None \<or> customPath = Some [] \<or> (customPath = Some p \<and> fs w p = None) \<longrightarrow>
      ((\<forall>f \<in> set (envFiles (mode w)). fs w (path_join w (cwd w) f) \<noteq> Some Unreadable) \<longrightarrow>
         loadEnvVars w customPath
           = Inr (layer w (js ''.env'') ++ layer w (js ''.env.'' @ mode w) ++
                  layer w (js ''.env.local'') ++ layer w (js ''.env.'' @ mode w @ js ''.local''))) \<and>
      ((\<exists>f \<in> set (envFiles (mode w)). fs w (path_join w (cwd w) f) = Some Unreadable) \<longrightarrow>
         (\<exists>q. loadEnvVars w customPath = Inl (ReadError q)))) \<and>
   (penv w (js ''NODE_ENV'') = None \<or> penv w (js ''NODE_ENV'') = Some [] \<longrightarrow>
      mode w = js ''development'') \<and>
   (penv w (js ''NODE_ENV'') = Some m \<and> m \<noteq> [] \<longrightarrow> mode w = m)"
proof -
  have a: "loadEnvVars w customPath = Inr (parse_content content)"
    if "customPath = Some p" "p \<noteq> []" "fs w p = Some (RegularFile content)"
    using that
    by (simp add: loadEnvVars_def existsSync_def parseEnvFile_def readFileSync_def
          object_assign_map_add parse_content_no_proto)
  have b: "loadEnvVars w customPath = Inl (ReadError p)"
    if "customPath = Some p" "p \<noteq> []" "fs w p = Some Unreadable"
    using that
    by (simp add: loadEnvVars_def existsSync_def parseEnvFile_def readFileSync_def)
  have c: "loadEnvVars w customPath
             = Inr (layer w (js ''.env'') ++ layer w (js ''.env.'' @ mode w) ++
                    layer w (js ''.env.local'') ++ layer w (js ''.env.'' @ mode w @ js ''.local''))"
    if "customPath = None \<or> customPath = Some [] \<or> (customPath = Some p \<and> fs w p = None)"
       "\<forall>f \<in> set (envFiles (mode w)). fs w (path_join w (cwd w) f) \<noteq> Some Unreadable"
    using loadEnvVars_default [OF that(1)] load_layers_default [OF that(2)] by simp
  have d: "\<exists>q. loadEnvVars w customPath = Inl (ReadError q)"
    if "customPath = None \<or> customPath = Some [] \<or> (customPath = Some p \<and> fs w p = None)"
       "\<exists>f \<in> set (envFiles (mode w)). fs w (path_join w (cwd w) f) = Some Unreadable"
    using loadEnvVars_default [OF that(1)] load_layers_unreadable [OF that(2), of Map.empty]
    by simp
  have e: "penv w (js ''NODE_ENV'') = None \<or> penv w (js ''NODE_ENV'') = Some [] \<longrightarrow>
             mode w = js ''development''"
          "penv w (js ''NODE_ENV'') = Some m \<and> m \<noteq> [] \<longrightarrow> mode w = m"
    by (auto simp: mode_def)
  from a b c d e show ?thesis by blast
qed

lemma w_files_mode: "mode w_files = js ''development''"
  by (simp add: mode_def w_files_def)

lemma w_files_readable:
  "\<forall>f \<in> set (envFiles (mode w_files)).
     fs w_files (path_join w_files (cwd w_files) f) \<noteq> Some Unreadable"
  by (simp add: w_files_mode envFiles_def w_files_def plain_join_def)

lemma w_files_layers:
  "layer w_files (js ''.env'') = [js ''PORT'' \<mapsto> js ''3000'', js ''HOST'' \<mapsto> js ''db'']"
  "layer w_files (js ''.env.development'') = [js ''PORT'' \<mapsto> js ''4000'']"
  "layer w_files (js ''.env.local'') = Map.empty"
  "layer w_files (js ''.env.development.local'') = Map.empty"
  by (simp_all add: layer_def w_files_def plain_join_def parser_defs)

lemma w_files_names:
  "js ''.env.'' @ js ''development'' = js ''.env.development''"
  "js ''.env.'' @ js ''development'' @ js ''.local'' = js ''.env.development.local''"
  by (simp_all add: js_def)

theorem loadEnvVars_selection_witness:
  "loadEnvVars w_files (Some (js ''/app/custom.env'')) = Inr [js ''ONLY'' \<mapsto> js ''1''] \<and>
   (\<exists>e. loadEnvVars w_files (Some (js ''/app/missing.env'')) = Inr e \<and>
        e (js ''PORT'') = Some (js ''4000'') \<and> e (js ''HOST'') = Some (js ''db'') \<and>
        e (js ''ONLY'') = None) \<and>
   penv w_files (js ''NODE_ENV'') = None \<and> mode w_files = js ''development''"
proof -
  have f1: "fs w_files (js ''/app/custom.env'') = Some (RegularFile (js ''ONLY=1''))"
    by (simp add: w_files_def)
  have f2: "fs w_files (js ''/app/missing.env'') = None"
    by (simp add: w_files_def)
  have n: "penv w_files (js ''NODE_ENV'') = None"
    by (simp add: w_files_def)
  have p: "parse_content (js ''ONLY=1'') = [js ''ONLY'' \<mapsto> js ''1'']"
    by (simp add: parser_defs)
  from loadEnvVars_selection [of "Some (js ''/app/custom.env'')" "js ''/app/custom.env''" w_files
         "js ''ONLY=1''"] f1 p
  have 1: "loadEnvVars w_files (Some (js ''/app/custom.env'')) = Inr [js ''ONLY'' \<mapsto> js ''1'']"
    by simp
  from loadEnvVars_selection [of "Some (js ''/app/missing.env'')" "js ''/app/missing.env''" w_files]
    f2 w_files_readable n
  have 2: "loadEnvVars w_files (Some (js ''/app/missing.env''))
             = Inr (layer w_files (js ''.env'') ++ layer w_files (js ''.env.'' @ mode w_files) ++
                    layer w_files (js ''.env.local'') ++
                    layer w_files (js ''.env.'' @ mode w_files @ js ''.local''))"
       and 3: "mode w_files = js ''development''"
    by simp_all
  from 2 have "\<exists>e. loadEnvVars w_files (Some (js ''/app/missing.env'')) = Inr e \<and>
        e (js ''PORT'') = Some (js ''4000'') \<and> e (js ''HOST'') = Some (js ''db'') \<and>
        e (js ''ONLY'') = None"
    by (simp add: w_files_mode w_files_names w_files_layers)
  with 1 n 3 show ?thesis by simp
qed

lemma loadEnvVars_w_files:
  "loadEnvVars w_files None
     = Inr ([js ''PORT'' \<mapsto> js ''3000'', js ''HOST'' \<mapsto> js ''db''] ++ [js ''PORT'' \<mapsto> js ''4000''])"
  using load_layers_default [OF w_files_readable]
  by (simp add: loadEnvVars_def w_files_mode w_files_names w_files_layers)

theorem mergedEnv_process_env_wins_witness:
  "\<not> isInitialized (initial_state :: jstring state) \<and>
   (\<exists>e. loadEnvVars w_files (envPath cfg_port) = Inr e \<and> e (js ''PORT'') = Some (js ''4000'')) \<and>
   penv w_files (js ''PORT'') = Some (js ''8080'') \<and> penv w_files (js ''HOST'') = None \<and>
   (\<exists>m. initEnv cfg_port w_files (initial_state :: jstring state)
           = validate cfg_port w_files m initial_state \<and>
        m (js ''PORT'') = Some (js ''8080'') \<and> m (js ''HOST'') = Some (js ''db''))"
proof -
  let ?e = "[js ''PORT'' \<mapsto> js ''3000'', js ''HOST'' \<mapsto> js ''db''] ++ [js ''PORT'' \<mapsto> js ''4000'']"
  have n: "\<not> isInitialized (initial_state :: jstring state)"
    by (simp add: initial_state_def)
  then have a: "\<not> (isInitialized (initial_state :: jstring state) \<and>
                   penv w_files (js ''NODE_ENV'') \<noteq> Some (js ''test''))"
    by simp
  have b: "loadEnvVars w_files (envPath cfg_port) = Inr ?e"
    by (simp add: cfg_port_def loadEnvVars_w_files)
  have p: "penv w_files (js ''PORT'') = Some (js ''8080'')" "penv w_files (js ''HOST'') = None"
    by (simp_all add: w_files_def)
  from mergedEnv_process_env_wins [OF a b] obtain m where
    m: "initEnv cfg_port w_files (initial_state :: jstring state)
          = validate cfg_port w_files m initial_state"
       "\<forall>k v. penv w_files k = Some v \<longrightarrow> m k = Some v"
       "\<forall>k. penv w_files k = None \<longrightarrow> m k = ?e k"
    by blast
  from m(2) p(1) have 1: "m (js ''PORT'') = Some (js ''8080'')" by blast
  from m(3) p(2) have 2: "m (js ''HOST'') = Some (js ''db'')" by simp
  from n b p m(1) 1 2 show ?thesis by auto
qed

section \<open>The client and server helpers\<close>

lemma check_keys_all_prefixed:
  "\<forall>k \<in> set keys. prefix (js ''NEXT_PUBLIC_'') k \<Longrightarrow> check_keys keys = None"
  by (induction keys) simp_all

lemma check_keys_first_offender:
  "\<forall>k \<in> set pre. prefix (js ''NEXT_PUBLIC_'') k \<Longrightarrow> \<not> prefix (js ''NEXT_PUBLIC_'') key \<Longrightarrow>
     check_keys (pre @ key # post)
       = Some (PlainError (js ''Client env '' @ [dquote] @ key @ [dquote] @
                           (js '' must start with NEXT_PUBLIC_'')))"
  by (induction pre) simp_all

lemma first_offender_exists:
  "\<exists>k \<in> set keys. \<not> P k \<Longrightarrow>
     \<exists>pre key post. keys = pre @ key # post \<and> (\<forall>k \<in> set pre. P k) \<and> \<not> P key"
proof (induction keys)
  case Nil
  then show ?case by simp
next
  case (Cons a keys)
  show ?case
  proof (cases "P a")
    case True
    with Cons.prems have "\<exists>k \<in> set keys. \<not> P k" by simp
    from Cons.IH [OF this] obtain pre key post where
      "keys = pre @ key # post" "\<forall>k \<in> set pre. P k" "\<not> P key"
      by blast
    with True have "a # keys = (a # pre) @ key # post \<and> (\<forall>k \<in> set (a # pre). P k) \<and> \<not> P key"
      by simp
    then show ?thesis by blast
  next
    case False
    then have "a # keys = [] @ a # keys \<and> (\<forall>k \<in> set []. P k) \<and> \<not> P a"
      by simp
    then show ?thesis by blast
  qed
qed

text \<open>
  C9: \<open>createClientEnv\<close> builds the schema when every field name starts with
  \<open>NEXT_PUBLIC_\<close>. When some field name does not, it throws instead of building the
  schema, and the message quotes a field name of the shape that lacks the prefix: the
  first such name in the order of the keys. \<open>createServerEnv\<close> builds the schema of
  any shape, unchanged.
\<close>

theorem createClientEnv_prefix_check:
  "((\<forall>k \<in> set (map fst shape). prefix (js ''NEXT_PUBLIC_'') k) \<longrightarrow>
      createClientEnv shape = Inr (ZodObject shape)) \<and>
   ((\<exists>k \<in> set (map fst shape). \<not> prefix (js ''NEXT_PUBLIC_'') k) \<longrightarrow>
      (\<exists>pre key post. map fst shape = pre @ key # post \<and>
         (\<forall>k \<in> set pre. prefix (js ''NEXT_PUBLIC_'') k) \<and> \<not> prefix (js ''NEXT_PUBLIC_'') key \<and>
         createClientEnv shape
           = Inl (PlainError (js ''Client env '' @ [dquote] @ key @ [dquote] @
                              (js '' must start with NEXT_PUBLIC_''))))) \<and>
   createServerEnv shape = Inr (ZodObject shape)"
proof -
  have a: "createClientEnv shape = Inr (ZodObject shape)"
    if "\<forall>k \<in> set (map fst shape). prefix (js ''NEXT_PUBLIC_'') k"
    using check_keys_all_prefixed [OF that] by (simp add: createClientEnv_def)
  have b: "\<exists>pre key post. map fst shape = pre @ key # post \<and>
         (\<forall>k \<in> set pre. prefix (js ''NEXT_PUBLIC_'') k) \<and> \<not> prefix (js ''NEXT_PUBLIC_'') key \<and>
         createClientEnv shape
           = Inl (PlainError (js ''Client env '' @ [dquote] @ key @ [dquote] @
                              (js '' must start with NEXT_PUBLIC_'')))"
    if "\<exists>k \<in> set (map fst shape). \<not> prefix (js ''NEXT_PUBLIC_'') k"
  proof -
    from first_offender_exists [OF that] obtain pre key post where
      k: "map fst shape = pre @ key # post" "\<forall>k \<in> set pre. prefix (js ''NEXT_PUBLIC_'') k"
         "\<not> prefix (js ''NEXT_PUBLIC_'') key"
      by blast
    from check_keys_first_offender [OF k(2) k(3), of post] k(1)
    have "createClientEnv shape
            = Inl (PlainError (js ''Client env '' @ [dquote] @ key @ [dquote] @
                               (js '' must start with NEXT_PUBLIC_'')))"
      by (simp add: createClientEnv_def)
    with k show ?thesis by blast
  qed
  have c: "createServerEnv shape = Inr (ZodObject shape)"
    by (simp add: createServerEnv_def)
  from a b c show ?thesis by blast
qed

theorem createClientEnv_prefix_check_witness:
  \<open>createClientEnv [(js ''NEXT_PUBLIC_FOO'', ())] = Inr (ZodObject [(js ''NEXT_PUBLIC_FOO'', ())]) \<and>
   createClientEnv [(js ''NEXT_PUBLIC_FOO'', ()), (js ''SECRET'', ())]
     = Inl (PlainError (js ''Client env "SECRET" must start with NEXT_PUBLIC_'')) \<and>
   createServerEnv [(js ''SECRET'', ())] = Inr (ZodObject [(js ''SECRET'', ())])\<close>
proof -
  have p: "prefix (js ''NEXT_PUBLIC_'') (js ''NEXT_PUBLIC_FOO'')" "\<not> prefix (js ''NEXT_PUBLIC_'') (js ''SECRET'')"
    by (simp_all add: js_def)
  from createClientEnv_prefix_check [of "[(js ''NEXT_PUBLIC_FOO'', ())]"] p(1)
  have 1: "createClientEnv [(js ''NEXT_PUBLIC_FOO'', ())] = Inr (ZodObject [(js ''NEXT_PUBLIC_FOO'', ())])"
    by simp
  from createClientEnv_prefix_check [of "[(js ''NEXT_PUBLIC_FOO'', ()), (js ''SECRET'', ())]"] p
  obtain pre key post where
    k: "[js ''NEXT_PUBLIC_FOO'', js ''SECRET''] = pre @ key # post"
       "\<forall>k \<in> set pre. prefix (js ''NEXT_PUBLIC_'') k" "\<not> prefix (js ''NEXT_PUBLIC_'') key"
       "createClientEnv [(js ''NEXT_PUBLIC_FOO'', ()), (js ''SECRET'', ())]
          = Inl (PlainError (js ''Client env '' @ [dquote] @ key @ [dquote] @
                             (js '' must start with NEXT_PUBLIC_'')))"
    by auto
  from k(1) k(3) p(1) have "key = js ''SECRET''"
    by (cases pre; cases "tl pre") (auto simp: Cons_eq_append_conv)
  with k(4) have 2: \<open>createClientEnv [(js ''NEXT_PUBLIC_FOO'', ()), (js ''SECRET'', ())]
     = Inl (PlainError (js ''Client env "SECRET" must start with NEXT_PUBLIC_''))\<close>
    by (simp add: js_def dquote_def unit_of_def)
  from createClientEnv_prefix_check [of "[(js ''SECRET'', ())]"]
  have 3: "createServerEnv [(js ''SECRET'', ())] = Inr (ZodObject [(js ''SECRET'', ())])"
    by simp
  from 1 2 3 show ?thesis by simp
qed
section \<open>What the file parser yields\<close>

lemma split_lines_not_Nil: "split_lines s \<noteq> []"
  by (induction s) (auto split: list.splits)

lemma join_split_lines: "join_lines (split_lines s) = s"
proof (induction s)
  case Nil
  then show ?case by simp
next
  case (Cons c s)
  obtain l ls where sp: "split_lines s = l # ls"
    using split_lines_not_Nil [of s] by (cases "split_lines s") auto
  with Cons show ?case by (cases ls) auto
qed

lemma split_lines_no_LF: "l \<in> set (split_lines s) \<Longrightarrow> LF \<notin> set l"
  by (induction s arbitrary: l) (auto split: if_splits list.splits)

lemma set_trim: "x \<in> set (trim s) \<Longrightarrow> x \<in> set s"
  by (auto simp: trim_def dest!: set_dropWhileD)

lemma trim_blank: "\<forall>c \<in> set s. is_whitespace c \<Longrightarrow> trim s = []"
  by (auto simp: trim_def dest: set_dropWhileD)

lemma trim_first:
  assumes "\<forall>c \<in> set ws. is_whitespace c" and "\<not> is_whitespace c"
  shows "\<exists>t. trim (ws @ c # rest) = c # t"
proof -
  from assms have d: "dropWhile is_whitespace (ws @ c # rest) = c # rest"
    by (simp add: dropWhile_append)
  let ?zs = "if \<forall>x \<in> set rest. is_whitespace x then []
             else dropWhile is_whitespace (rev rest)"
  from assms(2) have "dropWhile is_whitespace (rev rest @ [c]) = ?zs @ [c]"
    by (simp add: dropWhile_append)
  with d have "trim (ws @ c # rest) = c # rev ?zs"
    by (simp add: trim_def)
  then show ?thesis by blast
qed

lemma match_assignment_no_eq:
  assumes "eq_sign \<notin> set s"
  shows "match_assignment s = None"
proof -
  from assms have "dropWhile (\<lambda>c. c \<noteq> eq_sign) s = []"
    by (auto simp: dropWhile_eq_Nil_conv)
  then show ?thesis
    unfolding match_assignment_def Let_def by (simp only: list.case)
qed

lemma match_assignment_empty_key: "match_assignment (eq_sign # t) = None"
  by (simp add: match_assignment_def Let_def)

lemma match_assignment_split:
  assumes "eq_sign \<notin> set k"
  shows "match_assignment (k @ eq_sign # v)
           = (if k = [] \<or> list_ex is_line_terminator v then None else Some (k, v))"
proof -
  from assms have all: "\<forall>c \<in> set k. c \<noteq> eq_sign"
    by auto
  then have "takeWhile (\<lambda>c. c \<noteq> eq_sign) (k @ eq_sign # v) = k"
    by (simp add: takeWhile_tail)
  moreover from all have "dropWhile (\<lambda>c. c \<noteq> eq_sign) (k @ eq_sign # v) = eq_sign # v"
    by (simp add: dropWhile_append)
  ultimately show ?thesis
    by (simp add: match_assignment_def Let_def)
qed

lemma parse_line_blank: "\<forall>c \<in> set l. is_whitespace c \<Longrightarrow> parse_line l = None"
  by (simp add: parse_line_def Let_def trim_blank)

lemma parse_line_comment:
  assumes "\<forall>c \<in> set ws. is_whitespace c"
  shows "parse_line (ws @ hash_sign # rest) = None"
proof -
  have "\<not> is_whitespace (hash_sign)" by (simp add: is_whitespace_def is_line_terminator_def hash_sign_def eq_sign_def LF_def CR_def LS_def PS_def)
  from trim_first [OF assms this] obtain t where "trim (ws @ hash_sign # rest) = hash_sign # t"
    by blast
  then show ?thesis by (simp add: parse_line_def Let_def startsWith_def)
qed

lemma parse_line_no_eq:
  assumes "eq_sign \<notin> set l"
  shows "parse_line l = None"
proof -
  from assms set_trim [of "eq_sign" l] have "eq_sign \<notin> set (trim l)" by blast
  then show ?thesis by (simp add: parse_line_def Let_def match_assignment_no_eq)
qed

lemma parse_line_empty_key:
  assumes "\<forall>c \<in> set ws. is_whitespace c"
  shows "parse_line (ws @ eq_sign # rest) = None"
proof -
  have "\<not> is_whitespace (eq_sign)" by (simp add: is_whitespace_def is_line_terminator_def hash_sign_def eq_sign_def LF_def CR_def LS_def PS_def)
  from trim_first [OF assms this] obtain t where "trim (ws @ eq_sign # rest) = eq_sign # t"
    by blast
  then show ?thesis by (simp add: parse_line_def Let_def match_assignment_empty_key)
qed

lemma parse_line_entry:
  assumes "trim l = k @ eq_sign # v" and "eq_sign \<notin> set k" and "k \<noteq> []"
      and "hd k \<noteq> hash_sign" and "\<not> list_ex is_line_terminator v"
  shows "parse_line l
           = Some (trim k,
                   if (startsWith (trim v) dquote \<and> endsWith (trim v) dquote) \<or>
                      (startsWith (trim v) squote \<and> endsWith (trim v) squote)
                   then slice_1_m1 (trim v) else trim v)"
proof -
  from assms(3,4) have "\<not> startsWith (k @ eq_sign # v) (hash_sign)"
    by (cases k) (simp_all add: startsWith_def)
  with assms(1,3,5) match_assignment_split [OF assms(2), of v] show ?thesis
    by (simp add: parse_line_def Let_def)
qed

lemma unquote_wrapped:
  assumes "q = dquote \<or> q = squote"
  shows "(if (startsWith (q # body @ [q]) dquote \<and> endsWith (q # body @ [q]) dquote) \<or>
            (startsWith (q # body @ [q]) squote \<and> endsWith (q # body @ [q]) squote)
          then slice_1_m1 (q # body @ [q]) else q # body @ [q]) = body"
  using assms by (auto simp: startsWith_def endsWith_def slice_1_m1_def)

lemma unquote_plain:
  assumes "\<forall>body. t \<noteq> dquote # body @ [dquote]" and "\<forall>body. t \<noteq> squote # body @ [squote]"
      and "t \<noteq> [dquote]" and "t \<noteq> [squote]"
  shows "(if (startsWith t dquote \<and> endsWith t dquote) \<or> (startsWith t squote \<and> endsWith t squote)
          then slice_1_m1 t else t) = t"
proof -
  have "\<not> (startsWith t q \<and> endsWith t q)"
    if "\<forall>body. t \<noteq> q # body @ [q]" "t \<noteq> [q]" for q
  proof
    assume a: "startsWith t q \<and> endsWith t q"
    then obtain r where t: "t = q # r" by (cases t) (auto simp: startsWith_def)
    show False
    proof (cases r rule: rev_cases)
      case Nil
      with t that(2) show ?thesis by simp
    next
      case (snoc body x)
      with a t have "x = q" by (simp add: endsWith_def)
      with t snoc that(1) show ?thesis by simp
    qed
  qed
  with assms show ?thesis by auto
qed

lemma parse_lines_last_wins:
  "key \<noteq> js ''__proto__'' \<Longrightarrow>
     parse_lines ls env key
       = (case map_of (rev (List.map_filter parse_line ls)) key of
            Some v \<Rightarrow> Some v
          | None \<Rightarrow> env key)"
proof (induction ls arbitrary: env)
  case Nil
  then show ?case by simp
next
  case (Cons l ls)
  show ?case
  proof (cases "parse_line l")
    case None
    with Cons show ?thesis by simp
  next
    case (Some kv)
    obtain k v where kv: "kv = (k, v)" by (cases kv)
    with Some Cons show ?thesis
      by (auto simp: set_prop_def map_add_def split: option.splits)
  qed
qed
lemma set_dropWhile_keeps:
  "x \<in> set xs \<Longrightarrow> \<not> P x \<Longrightarrow> x \<in> set (dropWhile P xs)"
  by (induction xs) auto

lemma set_trim_keeps:
  "x \<in> set s \<Longrightarrow> \<not> is_whitespace x \<Longrightarrow> x \<in> set (trim s)"
  by (simp add: trim_def set_dropWhile_keeps)

lemma trim_splits_at_first_eq:
  assumes "\<forall>x \<in> set ws. is_whitespace x" and "\<not> is_whitespace c"
      and "c \<noteq> hash_sign" and "c \<noteq> eq_sign" and "eq_sign \<in> set rest"
  shows "\<exists>k v. trim (ws @ c # rest) = k @ eq_sign # v \<and> eq_sign \<notin> set k \<and> k \<noteq> [] \<and>
               hd k \<noteq> hash_sign"
proof -
  from trim_first [OF assms(1,2)] obtain t where t: "trim (ws @ c # rest) = c # t"
    by blast
  have "\<not> is_whitespace eq_sign"
    by (simp add: is_whitespace_def is_line_terminator_def eq_sign_def LF_def CR_def LS_def PS_def)
  with assms(5) have "eq_sign \<in> set (trim (ws @ c # rest))"
    by (simp add: set_trim_keeps)
  from split_list_first [OF this] obtain k v where
    kv: "trim (ws @ c # rest) = k @ eq_sign # v" "eq_sign \<notin> set k"
    by blast
  from kv(1) t assms(4) have "k \<noteq> [] \<and> hd k = c"
    by (cases k) auto
  with kv assms(3) show ?thesis by auto
qed

text \<open>
  C5, as the claim states it, fails: the line \<open>=foo\<close> is not blank, is no comment and
  holds a \<open>=\<close>, so the claim gives it the empty key with the value \<open>foo\<close>; the
  regular expression asks for at least one character before the \<open>=\<close>, and the line
  yields no entry.
\<close>

theorem parseEnvFile_empty_key_counterexample:
  "trim (js ''=foo'') \<noteq> [] \<and> \<not> startsWith (trim (js ''=foo'')) hash_sign \<and>
   eq_sign \<in> set (js ''=foo'') \<and> js ''=foo'' = [] @ eq_sign # js ''foo'' \<and>
   parse_line (js ''=foo'') = None \<and> parse_content (js ''=foo'') [] = None"
  by (simp add: parser_defs)

text \<open>
  C5, amended. The text is split at every line feed. A line yields no entry when it is
  blank, when its first character after leading white space is \<open>#\<close>, when it holds no
  \<open>=\<close>, and when its first character after leading white space is \<open>=\<close> (the key
  would be empty). Every other line that holds a \<open>=\<close> is, once trimmed, \<open>k = v\<close>
  with a non-empty \<open>k\<close> that holds no \<open>=\<close> and does not start with \<open>#\<close> (the
  last part of the statement), and, when no line terminator (LF, CR, U+2028, U+2029) is left in \<open>v\<close>, the entry has
  the key \<open>k\<close> trimmed and a value made from \<open>v\<close> trimmed: what is between its first
  and last character when these are two characters and the same quote character, double
  or single (one layer only: what is between them is kept as it is), and the trimmed
  \<open>v\<close> itself when it is neither wrapped in such a pair nor a single quote character.
  For every key other than \<open>__proto__\<close> the result holds the value of the last line
  that yields an entry for it (\<open>map_of\<close> finds the first pair of the reversed list of
  entries). Nothing is said of a value that is a single quote character, of a \<open>v\<close> with
  a line terminator inside, and of the key \<open>__proto__\<close>.
\<close>

theorem parseEnvFile_entries:
  "join_lines (split_lines content) = content \<and>
   (\<forall>l \<in> set (split_lines content). LF \<notin> set l) \<and>
   (key \<noteq> js ''__proto__'' \<longrightarrow>
      parse_content content key
        = map_of (rev (List.map_filter parse_line (split_lines content))) key) \<and>
   ((\<forall>c \<in> set l. is_whitespace c) \<longrightarrow> parse_line l = None) \<and>
   ((\<forall>c \<in> set ws. is_whitespace c) \<longrightarrow> parse_line (ws @ hash_sign # rest) = None) \<and>
   (eq_sign \<notin> set l \<longrightarrow> parse_line l = None) \<and>
   ((\<forall>c \<in> set ws. is_whitespace c) \<longrightarrow> parse_line (ws @ eq_sign # rest) = None) \<and>
   (trim l = k @ eq_sign # v \<and> eq_sign \<notin> set k \<and> k \<noteq> [] \<and> hd k \<noteq> hash_sign \<and>
    \<not> list_ex is_line_terminator v \<longrightarrow>
      ((q = dquote \<or> q = squote) \<and> trim v = q # body @ [q] \<longrightarrow>
         parse_line l = Some (trim k, body)) \<and>
      ((\<forall>b. trim v \<noteq> dquote # b @ [dquote]) \<and> (\<forall>b. trim v \<noteq> squote # b @ [squote]) \<and>
       trim v \<noteq> [dquote] \<and> trim v \<noteq> [squote] \<longrightarrow>
         parse_line l = Some (trim k, trim v))) \<and>
   ((\<forall>x \<in> set ws. is_whitespace x) \<and> \<not> is_whitespace c \<and> c \<noteq> hash_sign \<and> c \<noteq> eq_sign \<and>
    eq_sign \<in> set rest \<longrightarrow>
      (\<exists>k' v'. trim (ws @ c # rest) = k' @ eq_sign # v' \<and> eq_sign \<notin> set k' \<and> k' \<noteq> [] \<and>
                hd k' \<noteq> hash_sign))"
proof -
  have lines: "join_lines (split_lines content) = content"
              "\<forall>l \<in> set (split_lines content). LF \<notin> set l"
    by (simp_all add: join_split_lines split_lines_no_LF)
  have last_wins: "parse_content content key
        = map_of (rev (List.map_filter parse_line (split_lines content))) key"
    if "key \<noteq> js ''__proto__''"
    using parse_lines_last_wins [OF that, of "split_lines content" Map.empty]
    by (simp add: parse_content_def split: option.splits)
  have none: "(\<forall>c \<in> set l. is_whitespace c) \<longrightarrow> parse_line l = None"
             "(\<forall>c \<in> set ws. is_whitespace c) \<longrightarrow> parse_line (ws @ hash_sign # rest) = None"
             "eq_sign \<notin> set l \<longrightarrow> parse_line l = None"
             "(\<forall>c \<in> set ws. is_whitespace c) \<longrightarrow> parse_line (ws @ eq_sign # rest) = None"
    using parse_line_blank parse_line_comment parse_line_no_eq parse_line_empty_key
    by blast+
  have quoted: "parse_line l = Some (trim k, body)"
    if "trim l = k @ eq_sign # v" "eq_sign \<notin> set k" "k \<noteq> []" "hd k \<noteq> hash_sign"
       "\<not> list_ex is_line_terminator v" "q = dquote \<or> q = squote" "trim v = q # body @ [q]"
    using parse_line_entry [OF that(1-5)]
    unfolding that(7) unquote_wrapped [OF that(6)] .
  have plain: "parse_line l = Some (trim k, trim v)"
    if "trim l = k @ eq_sign # v" "eq_sign \<notin> set k" "k \<noteq> []" "hd k \<noteq> hash_sign"
       "\<not> list_ex is_line_terminator v"
       "\<forall>b. trim v \<noteq> dquote # b @ [dquote]" "\<forall>b. trim v \<noteq> squote # b @ [squote]"
       "trim v \<noteq> [dquote]" "trim v \<noteq> [squote]"
    using parse_line_entry [OF that(1-5)]
    unfolding unquote_plain [OF that(6-9)] .
  have splits: "\<exists>k' v'. trim (ws @ c # rest) = k' @ eq_sign # v' \<and> eq_sign \<notin> set k' \<and>
                  k' \<noteq> [] \<and> hd k' \<noteq> hash_sign"
    if "\<forall>x \<in> set ws. is_whitespace x" "\<not> is_whitespace c" "c \<noteq> hash_sign" "c \<noteq> eq_sign"
       "eq_sign \<in> set rest"
    using trim_splits_at_first_eq [OF that] .
  from lines last_wins none quoted plain splits show ?thesis
    by blast
qed

lemmas line_defs =
  trim_def is_whitespace_def is_line_terminator_def dquote_def squote_def hash_sign_def
  eq_sign_def LF_def CR_def LS_def PS_def js_def unit_of_def

theorem parseEnvFile_entries_witness:
  \<open>parse_line (js ''KEY="hello world"'') = Some (js ''KEY'', js ''hello world'') \<and>
   parse_line (js ''KEY='' @ [squote] @ js ''a'' @ [squote]) = Some (js ''KEY'', js ''a'') \<and>
   parse_line (js '' PORT = 3000 '') = Some (js ''PORT'', js ''3000'') \<and>
   parse_line (js ''A=x'' @ [CR]) = Some (js ''A'', js ''x'') \<and>
   parse_line (js ''# comment'') = None \<and> parse_line [] = None \<and>
   parse_line (js ''NOEQUALS'') = None \<and> parse_line (js ''=foo'') = None \<and>
   parse_content (js ''A=1'' @ [LF] @ js ''A=2'') (js ''A'') = Some (js ''2'')\<close>
proof -
  from parseEnvFile_entries [of "[]" "[]" \<open>js ''KEY="hello world"''\<close> "[]" "[]" "js ''KEY''"
         \<open>js ''"hello world"''\<close> dquote "js ''hello world''"]
  have 1: \<open>parse_line (js ''KEY="hello world"'') = Some (js ''KEY'', js ''hello world'')\<close>
    by (simp add: line_defs)
  from parseEnvFile_entries [of "[]" "[]" "js ''KEY='' @ [squote] @ js ''a'' @ [squote]" "[]" "[]"
         "js ''KEY''" "[squote] @ js ''a'' @ [squote]" squote "js ''a''"]
  have 2: "parse_line (js ''KEY='' @ [squote] @ js ''a'' @ [squote]) = Some (js ''KEY'', js ''a'')"
    by (simp add: line_defs)
  from parseEnvFile_entries [of "[]" "[]" "js '' PORT = 3000 ''" "[]" "[]" "js ''PORT ''"
         "js '' 3000''" dquote "[]"]
  have 3: "parse_line (js '' PORT = 3000 '') = Some (js ''PORT'', js ''3000'')"
    by (simp add: line_defs)
  from parseEnvFile_entries [of "[]" "[]" "js ''A=x'' @ [CR]" "[]" "[]" "js ''A''"
         "js ''x''" dquote "[]"]
  have 4: "parse_line (js ''A=x'' @ [CR]) = Some (js ''A'', js ''x'')"
    by (simp add: line_defs)
  from parseEnvFile_entries [of "[]" "[]" "[]" "[]" "js '' comment''" "[]" "[]" dquote "[]"]
  have 5: "parse_line (js ''# comment'') = None" "parse_line [] = None"
    by (simp_all add: js_def unit_of_def hash_sign_def)
  from parseEnvFile_entries [of "[]" "[]" "js ''NOEQUALS''" "[]" "js ''foo''" "[]" "[]" dquote "[]"]
  have 6: "parse_line (js ''NOEQUALS'') = None" "parse_line (js ''=foo'') = None"
    by (simp_all add: js_def unit_of_def eq_sign_def)
  from parseEnvFile_entries [of "js ''A=1'' @ [LF] @ js ''A=2''" "js ''A''" "[]" "[]" "[]" "[]" "[]"
         dquote "[]"]
  have 7: "parse_content (js ''A=1'' @ [LF] @ js ''A=2'') (js ''A'') = Some (js ''2'')"
    by (simp add: parser_defs)
  from 1 2 3 4 5 6 7 show ?thesis by simp
qed

text \<open>The code units beyond Latin-1 count: a line separator inside the value makes the
  regular expression fail, and a byte order mark before the key is trimmed away.\<close>

lemma parse_line_wide_code_units:
  "parse_line (js ''A=x'' @ [LS] @ js ''y'') = None \<and>
   parse_line (0xFEFF # js ''A=x'') = Some (js ''A'', js ''x'')"
  by (simp add: parse_line_def match_assignment_def startsWith_def endsWith_def line_defs)

section \<open>The object that \<open>initEnv\<close> returns\<close>

text \<open>
  C2 at a concrete input: \<open>initEnv\<close> validates \<open>PORT=3000\<close> and returns reference 1,
  which is \<open>runtimeEnv\<close> itself; a second call, on the already-initialised path, returns
  the same reference. The caller writes \<open>9999\<close> to \<open>PORT\<close> through it, and the object
  that \<open>getEnv\<close> returns next holds \<open>9999\<close>.
\<close>

theorem initEnv_result_is_cached_object:
  "fst (initEnv cfg_port w_port (initial_state :: jstring state)) = Returned 1 \<and>
   runtimeEnv (snd (initEnv cfg_port w_port (initial_state :: jstring state))) = 1 \<and>
   heap (snd (initEnv cfg_port w_port (initial_state :: jstring state))) 1 (js ''PORT'') = Some (js ''3000'') \<and>
   fst (initEnv cfg_port w_port (snd (initEnv cfg_port w_port (initial_state :: jstring state))))
     = Returned 1 \<and>
   (\<exists>r s. getEnv (mutate 1 (\<lambda>obj. obj(js ''PORT'' \<mapsto> js ''9999''))
                    (snd (initEnv cfg_port w_port (initial_state :: jstring state))))
            = (Returned r, s) \<and>
          heap s r (js ''PORT'') = Some (js ''9999''))"
  by (simp add: initEnv_def initial_state_def cfg_port_def w_port_def
        loadEnvVars_no_files validate_def mergedEnv_def port_schema_def alloc_def
        print_def getEnv_def mutate_def)

end
